theory Spec2Isabelle
  imports Main
begin

section \<open>The mail catcher: data model\<close>

text \<open>
  The Go package keeps the captured messages in a slice owned by the \<^verbatim>\<open>Server\<close>
  (\<^verbatim>\<open>server.go\<close>). Every access takes the server's read/write mutex for the whole
  method body, so each method is one atomic step on the slice; the model is the
  sequential composition of those steps, in the order in which they take the lock.
  Go strings are byte sequences: a \<^typ>\<open>string\<close> here is the list of the bytes.
\<close>

type_synonym Time = int

text \<open>\<^verbatim>\<open>type Email struct { ID, From, Subject, Body string; Time time.Time; To []string }\<close>\<close>

record Email =
  ID :: string
  From :: string
  Subject :: string
  Body :: string
  Time :: Time
  To :: "string list"

text \<open>
  \<^verbatim>\<open>type Server struct\<close>: the message slice and the two ports. The SMTP server's line
  limit, set by \<^verbatim>\<open>New\<close>, is kept as a field; the HTTP server, the logger and the mutex
  carry no data the properties below depend on.
\<close>

record Server =
  messages :: "Email list"
  smtpPort :: int
  httpPort :: int
  MaxLineLength :: nat

text \<open>\<^verbatim>\<open>type session struct { server *Server; from string; to []string }\<close>. The server
  pointer is the same for every session of a server: the server is passed beside the
  session instead. (\<^verbatim>\<open>from\<close> is a keyword of the proof language, hence the prefix.)\<close>

record session =
  sess_from :: string
  sess_to :: "string list"

text \<open>Errors are values. \<^verbatim>\<open>fmt.Errorf("...: %w", err)\<close> wraps an error in a message.\<close>

datatype error = IOError string | Errorf string error

section \<open>Rendering an identifier: \<^verbatim>\<open>fmt.Sprintf("msg-%d", n)\<close>\<close>

definition digits :: string where
  "digits = ''0123456789''"

text \<open>The decimal numeral of a length (never negative), most significant digit first.\<close>

function decimal :: "nat \<Rightarrow> string" where
  "decimal n = (if n < 10 then [digits ! n] else decimal (n div 10) @ [digits ! (n mod 10)])"
  by pat_completeness auto
termination
  by (relation "measure id") auto

declare decimal.simps [simp del]

definition msg_id :: "nat \<Rightarrow> string" where
  "msg_id n = ''msg-'' @ decimal n"

section \<open>The store\<close>

text \<open>\<^verbatim>\<open>New(smtpPort, httpPort)\<close>: an empty slice, the ports, and a line limit of 16 MiB
  for the SMTP server (\<^verbatim>\<open>s.smtpServer.MaxLineLength = 16 * 1024 * 1024\<close>).\<close>

definition New :: "int \<Rightarrow> int \<Rightarrow> Server" where
  "New sp hp = \<lparr>messages = [], smtpPort = sp, httpPort = hp, MaxLineLength = 16 * 1024 * 1024\<rparr>"

definition NewWithDefaults :: Server where
  "NewWithDefaults = New 1025 8025"

text \<open>\<^verbatim>\<open>Emails\<close> returns a copy of the slice.\<close>

definition Emails :: "Server \<Rightarrow> Email list" where
  "Emails s = messages s"

text \<open>\<^verbatim>\<open>(*Server).Email(id)\<close>: a pointer to a copy of the first message with that ID,
  \<^verbatim>\<open>nil\<close> when the loop ends without one.\<close>

fun lookup_id :: "Email list \<Rightarrow> string \<Rightarrow> Email option" where
  "lookup_id [] i = None"
| "lookup_id (m # ms) i = (if ID m = i then Some m else lookup_id ms i)"

definition Server_Email :: "Server \<Rightarrow> string \<Rightarrow> Email option" where
  "Server_Email s i = lookup_id (messages s) i"

text \<open>\<^verbatim>\<open>Clear\<close> replaces the slice by an empty one.\<close>

definition Clear :: "Server \<Rightarrow> Server" where
  "Clear s = s\<lparr>messages := []\<rparr>"

text \<open>\<^verbatim>\<open>addMessage\<close>: the ID is rendered from the length of the slice, the time is the
  clock's reading \<open>now\<close> (\<^verbatim>\<open>time.Now()\<close>), and the message goes to the end.\<close>

definition addMessage :: "Time \<Rightarrow> Email \<Rightarrow> Server \<Rightarrow> Server" where
  "addMessage now email s =
     s\<lparr>messages := messages s @ [email\<lparr>ID := msg_id (length (messages s)), Time := now\<rparr>]\<rparr>"

text \<open>A run of appends, each with the clock's reading at its turn.\<close>

fun addMessages :: "(Time \<times> Email) list \<Rightarrow> Server \<Rightarrow> Server" where
  "addMessages [] s = s"
| "addMessages ((now, email) # rest) s = addMessages rest (addMessage now email s)"

text \<open>The record that an append stores at position \<open>n\<close>.\<close>

definition stored :: "nat \<Rightarrow> Time \<times> Email \<Rightarrow> Email" where
  "stored n p = (snd p)\<lparr>ID := msg_id n, Time := fst p\<rparr>"

text \<open>Arbitrary histories of the store: appends and clears in any order.\<close>

datatype store_op = Append Time Email | ClearAll

fun apply_op :: "Server \<Rightarrow> store_op \<Rightarrow> Server" where
  "apply_op s (Append now email) = addMessage now email s"
| "apply_op s ClearAll = Clear s"

definition run_ops :: "store_op list \<Rightarrow> Server \<Rightarrow> Server" where
  "run_ops ops s = foldl apply_op s ops"

section \<open>Scanning the header: \<^verbatim>\<open>parseSubject\<close>\<close>

definition LF :: char where
  "LF = CHR 0x0A"

definition CR :: char where
  "CR = CHR 0x0D"

subsection \<open>\<^verbatim>\<open>strings.ToLower\<close>, \<^verbatim>\<open>strings.HasPrefix\<close>\<close>

definition upper_letters :: string where
  "upper_letters = ''ABCDEFGHIJKLMNOPQRSTUVWXYZ''"

definition lower_letters :: string where
  "lower_letters = ''abcdefghijklmnopqrstuvwxyz''"

text \<open>
  \<^verbatim>\<open>if 'A' <= c && c <= 'Z' { c += 'a' - 'A' }\<close>, byte by byte. On a string with bytes
  beyond ASCII the library maps rune by rune instead; no rune beyond ASCII lowers to one
  of the letters of \<^verbatim>\<open>subject:\<close> (the only runes that lower into ASCII are U+0130 to
  \<^verbatim>\<open>i\<close> and U+212A to \<^verbatim>\<open>k\<close>), and bytes before the first such rune are mapped
  as here, so the prefix test of \<^verbatim>\<open>parseSubject\<close> has the same outcome on every line.
\<close>

definition lower_byte :: "char \<Rightarrow> char" where
  "lower_byte c = (case map_of (zip upper_letters lower_letters) c of Some l \<Rightarrow> l | None \<Rightarrow> c)"

definition ToLower :: "string \<Rightarrow> string" where
  "ToLower s = map lower_byte s"

definition HasPrefix :: "string \<Rightarrow> string \<Rightarrow> bool" where
  "HasPrefix s p = (length p \<le> length s \<and> take (length p) s = p)"

subsection \<open>\<^verbatim>\<open>strings.TrimSpace\<close>\<close>

text \<open>
  White space is what \<^verbatim>\<open>unicode.IsSpace\<close> accepts: the six ASCII characters of the
  table \<^verbatim>\<open>asciiSpace\<close>, and U+0085, U+00A0, U+1680, U+2000 to U+200A, U+2028, U+2029,
  U+202F, U+205F and U+3000, which are two or three bytes in UTF-8. A rune is decoded at
  the front (or the back) of the string only if its bytes are a valid encoding, so
  trimming removes these byte sequences and nothing else.
\<close>

definition asciiSpace :: "char \<Rightarrow> bool" where
  "asciiSpace c = (c \<in> set [CHR 0x09, CHR 0x0A, CHR 0x0B, CHR 0x0C, CHR 0x0D, CHR 0x20])"

definition space2 :: "string list" where
  "space2 = [[CHR 0xC2, CHR 0x85], [CHR 0xC2, CHR 0xA0]]"

definition space3 :: "string list" where
  "space3 = [[CHR 0xE1, CHR 0x9A, CHR 0x80],
     [CHR 0xE2, CHR 0x80, CHR 0x80], [CHR 0xE2, CHR 0x80, CHR 0x81], [CHR 0xE2, CHR 0x80, CHR 0x82],
     [CHR 0xE2, CHR 0x80, CHR 0x83], [CHR 0xE2, CHR 0x80, CHR 0x84], [CHR 0xE2, CHR 0x80, CHR 0x85],
     [CHR 0xE2, CHR 0x80, CHR 0x86], [CHR 0xE2, CHR 0x80, CHR 0x87], [CHR 0xE2, CHR 0x80, CHR 0x88],
     [CHR 0xE2, CHR 0x80, CHR 0x89], [CHR 0xE2, CHR 0x80, CHR 0x8A],
     [CHR 0xE2, CHR 0x80, CHR 0xA8], [CHR 0xE2, CHR 0x80, CHR 0xA9], [CHR 0xE2, CHR 0x80, CHR 0xAF],
     [CHR 0xE2, CHR 0x81, CHR 0x9F], [CHR 0xE3, CHR 0x80, CHR 0x80]]"

text \<open>The number of bytes of the white-space rune at the front of \<open>s\<close>, 0 if there is none.\<close>

definition space_width :: "string \<Rightarrow> nat" where
  "space_width s =
     (if s \<noteq> [] \<and> asciiSpace (hd s) then 1
      else if 2 \<le> length s \<and> take 2 s \<in> set space2 then 2
      else if 3 \<le> length s \<and> take 3 s \<in> set space3 then 3
      else 0)"

text \<open>The same at the back of \<open>s\<close>.\<close>

definition space_width_last :: "string \<Rightarrow> nat" where
  "space_width_last s =
     (if s \<noteq> [] \<and> asciiSpace (last s) then 1
      else if 2 \<le> length s \<and> drop (length s - 2) s \<in> set space2 then 2
      else if 3 \<le> length s \<and> drop (length s - 3) s \<in> set space3 then 3
      else 0)"

function TrimLeft :: "string \<Rightarrow> string" where
  "TrimLeft s = (if space_width s = 0 then s else TrimLeft (drop (space_width s) s))"
  by pat_completeness auto
termination
  by (relation "measure length") (auto simp: space_width_def split: if_splits)

function TrimRight :: "string \<Rightarrow> string" where
  "TrimRight s =
     (if space_width_last s = 0 then s else TrimRight (take (length s - space_width_last s) s))"
  by pat_completeness auto
termination
  by (relation "measure length") (auto simp: space_width_last_def split: if_splits)

declare TrimLeft.simps [simp del] TrimRight.simps [simp del]

definition TrimSpace :: "string \<Rightarrow> string" where
  "TrimSpace s = TrimRight (TrimLeft s)"

subsection \<open>\<^verbatim>\<open>bufio.Scanner\<close> with the default split function \<^verbatim>\<open>ScanLines\<close>\<close>

text \<open>
  \<^verbatim>\<open>bufio.NewScanner\<close> gives the scanner a buffer that grows to at most
  \<^verbatim>\<open>MaxScanTokenSize = 64 * 1024\<close> bytes; \<^verbatim>\<open>parseSubject\<close> never calls
  \<^verbatim>\<open>scanner.Buffer\<close> to raise the limit.
\<close>

definition MaxScanTokenSize :: nat where
  "MaxScanTokenSize = 64 * 1024"

text \<open>\<^verbatim>\<open>dropCR\<close> removes one carriage return at the end of a line.\<close>

definition dropCR :: "string \<Rightarrow> string" where
  "dropCR data = (if data \<noteq> [] \<and> last data = CR then butlast data else data)"

text \<open>\<^verbatim>\<open>bytes.IndexByte\<close>: the index of the first occurrence, \<^verbatim>\<open>-1\<close> as \<open>None\<close>.\<close>

definition IndexByte :: "string \<Rightarrow> char \<Rightarrow> nat option" where
  "IndexByte data c =
     (let i = length (takeWhile (\<lambda>b. b \<noteq> c) data) in if i < length data then Some i else None)"

text \<open>
  One call of \<^verbatim>\<open>scanner.Scan()\<close> on the input that is still unread: \<open>None\<close> when the
  call returns false, otherwise the token (\<^verbatim>\<open>scanner.Text()\<close>) and the input left.
  The scanner shows \<^verbatim>\<open>ScanLines\<close> a window of the unread input that starts at the
  current position and holds at most \<^verbatim>\<open>MaxScanTokenSize\<close> bytes. \<^verbatim>\<open>ScanLines\<close>
  returns the line before the first line feed of the window; without a line feed it
  returns the rest of the input as the last line once the end of input has been seen,
  which needs a free byte in the buffer. A window that is full and has no line feed makes
  \<^verbatim>\<open>Scan\<close> fail with \<^verbatim>\<open>ErrTooLong\<close>; at the end of input there is no token.
\<close>

definition Scan :: "string \<Rightarrow> (string \<times> string) option" where
  "Scan input =
     (if input = [] then None
      else case IndexByte input LF of
        Some i \<Rightarrow>
          if i < MaxScanTokenSize then Some (dropCR (take i input), drop (i + 1) input) else None
      | None \<Rightarrow>
          if length input < MaxScanTokenSize then Some (dropCR input, []) else None)"

text \<open>The loop of \<^verbatim>\<open>parseSubject\<close>; the error of the scanner is never looked at, so a
  failed \<^verbatim>\<open>Scan\<close> ends the loop like the end of input does.\<close>

function parseSubject_loop :: "string \<Rightarrow> string" where
  "parseSubject_loop input =
     (case Scan input of
        None \<Rightarrow> []
      | Some (line, rest) \<Rightarrow>
          if line = [] then []
          else if HasPrefix (ToLower line) ''subject:'' then TrimSpace (drop 8 line)
          else parseSubject_loop rest)"
  by pat_completeness auto
termination
  by (relation "measure length")
     (auto simp: Scan_def IndexByte_def Let_def split: if_splits option.splits)

declare parseSubject_loop.simps [simp del]

definition parseSubject :: "string \<Rightarrow> string" where
  "parseSubject body = parseSubject_loop body"

subsection \<open>The header scan in the words of the specification\<close>

text \<open>
  The lines of a text of any length: split at each line feed, one carriage return
  dropped at the end of each line, no empty line after a final line feed.
\<close>

function split_raw :: "string \<Rightarrow> string list" where
  "split_raw input =
     (if input = [] then []
      else case IndexByte input LF of
        Some i \<Rightarrow> take i input # split_raw (drop (i + 1) input)
      | None \<Rightarrow> [input])"
  by pat_completeness auto
termination
  by (relation "measure length") (auto simp: IndexByte_def Let_def split: if_splits)

declare split_raw.simps [simp del]

definition split_lines :: "string \<Rightarrow> string list" where
  "split_lines input = map dropCR (split_raw input)"

text \<open>The portion of a line before its first colon, and the remainder after that colon.\<close>

definition before_colon :: "string \<Rightarrow> string" where
  "before_colon line = takeWhile (\<lambda>c. c \<noteq> CHR '':'') line"

definition after_colon :: "string \<Rightarrow> string" where
  "after_colon line = drop 1 (dropWhile (\<lambda>c. c \<noteq> CHR '':'') line)"

definition is_subject_line :: "string \<Rightarrow> bool" where
  "is_subject_line line = (CHR '':'' \<in> set line \<and> ToLower (before_colon line) = ''subject'')"

text \<open>A zero-length line ends the scan with the empty label; the first line whose field
  name is the subject's gives the label; the end of the lines gives the empty label.\<close>

fun header_scan :: "string list \<Rightarrow> string" where
  "header_scan [] = []"
| "header_scan (line # rest) =
     (if line = [] then []
      else if is_subject_line line then TrimSpace (after_colon line)
      else header_scan rest)"

text \<open>Two messages with a line of more than 64 KiB in the header, far below the line
  limit that \<^verbatim>\<open>New\<close> gives the SMTP server.\<close>

definition long_header_body :: string where
  "long_header_body =
     ''X-Long: '' @ replicate 65536 (CHR ''a'') @ [CR, LF] @
     ''Subject: Hello'' @ [CR, LF, CR, LF] @ ''Body''"

definition long_subject_body :: string where
  "long_subject_body = ''Subject: '' @ replicate 65536 (CHR ''a'') @ [CR, LF, CR, LF]"

section \<open>The SMTP session\<close>

text \<open>The outcome of \<^verbatim>\<open>io.ReadAll(r)\<close>: the bytes read, and the error that stopped
  the read, \<open>None\<close> at the end of the data.\<close>

type_synonym read_result = "string \<times> error option"

definition AuthPlain :: "string \<Rightarrow> string \<Rightarrow> session \<Rightarrow> error option \<times> session" where
  "AuthPlain username password s = (None, s)"

definition Mail :: "string \<Rightarrow> session \<Rightarrow> error option \<times> session" where
  "Mail addr s = (None, s\<lparr>sess_from := addr\<rparr>)"

definition Rcpt :: "string \<Rightarrow> session \<Rightarrow> error option \<times> session" where
  "Rcpt addr s = (None, s\<lparr>sess_to := sess_to s @ [addr]\<rparr>)"

text \<open>\<^verbatim>\<open>Data\<close> reads the message, and on a read error returns before anything else is
  done. Otherwise it stores an \<^verbatim>\<open>Email\<close> built from the session's fields (ID and time
  are zero values until \<^verbatim>\<open>addMessage\<close> sets them). The session's fields are not assigned.\<close>

definition Data :: "read_result \<Rightarrow> Time \<Rightarrow> session \<Rightarrow> Server \<Rightarrow> error option \<times> session \<times> Server" where
  "Data r now s srv =
     (case snd r of
        Some err \<Rightarrow> (Some (Errorf ''failed to read email data'' err), s, srv)
      | None \<Rightarrow>
          (let body = fst r;
               subject = parseSubject body;
               email = \<lparr>ID = [], From = sess_from s, Subject = subject, Body = body,
                        Time = 0, To = sess_to s\<rparr>
           in (None, s, addMessage now email srv)))"

definition Reset :: "session \<Rightarrow> session" where
  "Reset s = s\<lparr>sess_from := [], sess_to := []\<rparr>"

definition Logout :: "session \<Rightarrow> error option" where
  "Logout s = None"

text \<open>One call of a method of the session, named by the command that leads to it: the
  session and the server it points to are the state, the method's error is the result.
  This is the call alone; what the connection layer does around it is \<open>serve\<close> below.\<close>

datatype command =
    AUTH string string
  | MAIL string
  | RCPT string
  | DATA read_result Time
  | RSET
  | QUIT

fun exec :: "command \<Rightarrow> session \<times> Server \<Rightarrow> error option \<times> session \<times> Server" where
  "exec (AUTH u p) (s, srv) = (fst (AuthPlain u p s), snd (AuthPlain u p s), srv)"
| "exec (MAIL a) (s, srv) = (fst (Mail a s), snd (Mail a s), srv)"
| "exec (RCPT a) (s, srv) = (fst (Rcpt a s), snd (Rcpt a s), srv)"
| "exec (DATA r now) (s, srv) = Data r now s srv"
| "exec RSET (s, srv) = (None, Reset s, srv)"
| "exec QUIT (s, srv) = (Logout s, s, srv)"

subsection \<open>The connection layer\<close>

text \<open>
  The sessions are driven by the SMTP library that \<^verbatim>\<open>New\<close> installs
  (\<^verbatim>\<open>smtp.NewServer(backend)\<close>), which is not part of the repository. What it does
  around the methods, on a connection that has greeted: it keeps for itself whether a
  sender was accepted and which recipients were; it refuses \<^verbatim>\<open>RCPT\<close> before
  \<^verbatim>\<open>MAIL\<close>, and \<^verbatim>\<open>DATA\<close> before \<^verbatim>\<open>MAIL\<close> or without a recipient, and calls no
  method then; after every \<^verbatim>\<open>DATA\<close>, whatever \<^verbatim>\<open>Data\<close> returned, and on
  \<^verbatim>\<open>RSET\<close> it forgets sender and recipients and calls the session's \<^verbatim>\<open>Reset\<close>.
  Only the state after a command is modelled, not the reply sent to the client.
\<close>

record Conn =
  fromReceived :: bool
  recipients :: "string list"

definition new_Conn :: Conn where
  "new_Conn = \<lparr>fromReceived = False, recipients = []\<rparr>"

definition Conn_reset :: "Conn \<Rightarrow> Conn" where
  "Conn_reset c = c\<lparr>fromReceived := False, recipients := []\<rparr>"

fun serve :: "command \<Rightarrow> Conn \<times> session \<times> Server \<Rightarrow> Conn \<times> session \<times> Server" where
  "serve (AUTH u p) (c, s, srv) = (c, snd (exec (AUTH u p) (s, srv)))"
| "serve (MAIL a) (c, s, srv) =
     (case exec (MAIL a) (s, srv) of
        (None, st) \<Rightarrow> (c\<lparr>fromReceived := True\<rparr>, st)
      | (Some e, st) \<Rightarrow> (c, st))"
| "serve (RCPT a) (c, s, srv) =
     (if fromReceived c then
        (case exec (RCPT a) (s, srv) of
           (None, st) \<Rightarrow> (c\<lparr>recipients := recipients c @ [a]\<rparr>, st)
         | (Some e, st) \<Rightarrow> (c, st))
      else (c, s, srv))"
| "serve (DATA r now) (c, s, srv) =
     (if fromReceived c \<and> recipients c \<noteq> [] then
        (case exec (DATA r now) (s, srv) of (e, s', srv') \<Rightarrow> (Conn_reset c, Reset s', srv'))
      else (c, s, srv))"
| "serve RSET (c, s, srv) = (Conn_reset c, snd (exec RSET (s, srv)))"
| "serve QUIT (c, s, srv) = (c, snd (exec QUIT (s, srv)))"

text \<open>The commands of one connection in turn; \<^verbatim>\<open>QUIT\<close> ends the connection, and what
  follows it is not read.\<close>

fun run_conn :: "command list \<Rightarrow> Conn \<times> session \<times> Server \<Rightarrow> Conn \<times> session \<times> Server" where
  "run_conn [] st = st"
| "run_conn (QUIT # cmds) st = serve QUIT st"
| "run_conn (cmd # cmds) st = run_conn cmds (serve cmd st)"

section \<open>The HTTP handler for one message\<close>

record response =
  statusCode :: nat
  contentType :: string
  respBody :: string

definition StatusOK :: nat where
  "StatusOK = 200"

definition StatusBadRequest :: nat where
  "StatusBadRequest = 400"

definition StatusNotFound :: nat where
  "StatusNotFound = 404"

definition StatusInternalServerError :: nat where
  "StatusInternalServerError = 500"

text \<open>\<^verbatim>\<open>http.Error\<close> replies with the code and the message as plain text.\<close>

definition http_Error :: "string \<Rightarrow> nat \<Rightarrow> response" where
  "http_Error msg code =
     \<lparr>statusCode = code, contentType = ''text/plain; charset=utf-8'', respBody = msg @ [LF]\<rparr>"

datatype panic = SliceBoundsOutOfRange

text \<open>
  \<^verbatim>\<open>handleGetEmail\<close>. The JSON encoder of the library is the parameter \<open>encode\<close>
  (\<open>None\<close> when \<^verbatim>\<open>Encode\<close> returns an error). The mux routes only paths below
  \<^verbatim>\<open>/api/v1/emails/\<close> to this handler; on a shorter path the slice expression panics.
\<close>

definition handleGetEmail :: "(Email \<Rightarrow> string option) \<Rightarrow> Server \<Rightarrow> string \<Rightarrow> panic + response" where
  "handleGetEmail encode s path =
     (if length path < length ''/api/v1/emails/'' then Inl SliceBoundsOutOfRange
      else let i = drop (length ''/api/v1/emails/'') path in
        if i = [] then Inr (http_Error ''Email ID is required'' StatusBadRequest)
        else case Server_Email s i of
          None \<Rightarrow> Inr (http_Error ''Email not found'' StatusNotFound)
        | Some email \<Rightarrow>
            (case encode email of
               Some js \<Rightarrow> Inr \<lparr>statusCode = StatusOK, contentType = ''application/json'',
                                respBody = js @ [LF]\<rparr>
             | None \<Rightarrow> Inr (http_Error ''Failed to encode response'' StatusInternalServerError)))"

text \<open>An encoder to run the handler with: it writes the ID between quotes.\<close>

definition encode_id :: "Email \<Rightarrow> string option" where
  "encode_id email = Some ([CHR 0x22] @ ID email @ [CHR 0x22])"

section \<open>Ports from the command line and the environment\<close>

subsection \<open>\<^verbatim>\<open>strconv.Atoi\<close> and \<^verbatim>\<open>fmt.Sscanf\<close> with \<^verbatim>\<open>%d\<close>\<close>

definition is_digit :: "char \<Rightarrow> bool" where
  "is_digit c = (c \<in> set digits)"

definition digit_val :: "char \<Rightarrow> nat" where
  "digit_val c = (of_char c :: nat) - 48"

definition decimal_value :: "string \<Rightarrow> nat" where
  "decimal_value s = foldl (\<lambda>a c. 10 * a + digit_val c) 0 s"

text \<open>Go's \<^verbatim>\<open>int\<close> on the 64-bit targets the project builds for.\<close>

definition in_int_range :: "int \<Rightarrow> bool" where
  "in_int_range v = (- (2 ^ 63) \<le> v \<and> v < 2 ^ 63)"

definition signed_value :: "bool \<Rightarrow> string \<Rightarrow> int option" where
  "signed_value neg ds =
     (let v = (if neg then - int (decimal_value ds) else int (decimal_value ds))
      in if in_int_range v then Some v else None)"

text \<open>\<^verbatim>\<open>strconv.Atoi\<close>: an optional sign and then decimal digits, at least one and nothing
  else, with a value in range; \<open>None\<close> is the error.\<close>

definition Atoi :: "string \<Rightarrow> int option" where
  "Atoi s =
     (if s = [] then None
      else let ds = (if hd s = CHR ''-'' \<or> hd s = CHR ''+'' then tl s else s) in
        if ds = [] \<or> \<not> list_all is_digit ds then None
        else signed_value (hd s = CHR ''-'') ds)"

text \<open>The scanner's \<^verbatim>\<open>SkipSpace\<close> under \<^verbatim>\<open>Sscanf\<close>: white space is skipped, a line
  feed is an error, a carriage return before a line feed is passed over.\<close>

function SkipSpace :: "string \<Rightarrow> string option" where
  "SkipSpace s =
     (if s = [] then Some []
      else if hd s = CR \<and> HasPrefix (tl s) [LF] then SkipSpace (tl s)
      else if hd s = LF then None
      else if space_width s = 0 then Some s
      else SkipSpace (drop (space_width s) s))"
  by pat_completeness auto
termination
  by (relation "measure length") (auto simp: space_width_def split: if_splits)

declare SkipSpace.simps [simp del]

text \<open>\<^verbatim>\<open>fmt.Sscanf(port, "%d", p)\<close>: leading white space, an optional sign, then the
  longest run of decimal digits; what follows the digits is not read. \<open>None\<close> is the
  error, and on an error nothing is stored through \<^verbatim>\<open>p\<close>.\<close>

definition Sscanf_d :: "string \<Rightarrow> int option" where
  "Sscanf_d s =
     (case SkipSpace s of
        None \<Rightarrow> None
      | Some r \<Rightarrow>
          if r = [] then None
          else let ds = takeWhile is_digit
                          (if hd r = CHR ''-'' \<or> hd r = CHR ''+'' then tl r else r) in
            if ds = [] then None else signed_value (hd r = CHR ''-'') ds)"

subsection \<open>\<^verbatim>\<open>main\<close>, \<^verbatim>\<open>isFlagPassed\<close>, \<^verbatim>\<open>getEnvInt\<close>\<close>








section \<open>Sample data\<close>

text \<open>A message and a session to run the definitions on.\<close>

definition sample_email :: "string \<Rightarrow> Email" where
  "sample_email subj =
     \<lparr>ID = [], From = ''a@x.com'', Subject = subj,
      Body = ''Subject: '' @ subj @ [CR, LF, CR, LF] @ ''Hi'', Time = 0, To = [''b@x.com'']\<rparr>"

definition sample_session :: session where
  "sample_session = \<lparr>sess_from = ''a@x.com'', sess_to = [''b@x.com'']\<rparr>"

section \<open>Identifiers are decimal numerals\<close>

lemma digit_val_digits: "d < 10 \<Longrightarrow> digit_val (digits ! d) = d"
proof -
  assume "d < 10"
  then have "d \<in> {0, 1, 2, 3, 4, 5, 6, 7, 8, 9}" by auto
  then show ?thesis by (auto simp: digits_def digit_val_def)
qed

lemma decimal_value_single: "decimal_value [c] = digit_val c"
  by (simp add: decimal_value_def)

lemma decimal_value_snoc: "decimal_value (ds @ [c]) = 10 * decimal_value ds + digit_val c"
  by (simp add: decimal_value_def)

lemma decimal_value_decimal: "decimal_value (decimal n) = n"
proof (induction n rule: decimal.induct)
  case (1 n)
  show ?case
  proof (cases "n < 10")
    case True
    then have "decimal n = [digits ! n]" by (subst decimal.simps) simp
    with True show ?thesis by (simp add: decimal_value_single digit_val_digits)
  next
    case False
    then have unfold: "decimal n = decimal (n div 10) @ [digits ! (n mod 10)]"
      by (subst decimal.simps) simp
    from False 1 have IH: "decimal_value (decimal (n div 10)) = n div 10" by simp
    have "digit_val (digits ! (n mod 10)) = n mod 10" by (rule digit_val_digits) simp
    with IH show ?thesis by (simp only: unfold decimal_value_snoc) simp
  qed
qed

lemma decimal_inj:
  assumes "decimal m = decimal n"
  shows "m = n"
proof -
  have "decimal_value (decimal m) = decimal_value (decimal n)" by (simp only: assms)
  then show ?thesis by (simp only: decimal_value_decimal)
qed

lemma msg_id_inj: "msg_id m = msg_id n \<longleftrightarrow> m = n"
  by (auto simp: msg_id_def dest: decimal_inj)

lemma inj_msg_id: "inj_on msg_id A"
  by (simp add: inj_on_def msg_id_inj)

lemma msg_id_0: "msg_id 0 = ''msg-0''"
  by (simp add: msg_id_def decimal.simps digits_def)

section \<open>Lemmas about the store\<close>

lemma ID_stored: "ID (stored n p) = msg_id n"
  by (simp add: stored_def)

lemma messages_addMessage:
  "messages (addMessage now email s) = messages s @ [stored (length (messages s)) (now, email)]"
  by (simp add: addMessage_def stored_def)

lemma messages_addMessages:
  "messages (addMessages ps s) =
     messages s @ map (\<lambda>(n, p). stored n p) (enumerate (length (messages s)) ps)"
proof (induction ps arbitrary: s)
  case Nil
  show ?case by simp
next
  case (Cons p ps)
  obtain now email where p: "p = (now, email)" by (cases p)
  show ?case by (simp add: p Cons.IH messages_addMessage)
qed

lemma map_ID_stored:
  "map ID (map (\<lambda>(n, p). stored n p) (enumerate k ps)) = map msg_id [k..<k + length ps]"
proof -
  have "map (ID \<circ> (\<lambda>(n, p). stored n p)) (enumerate k ps) = map (msg_id \<circ> fst) (enumerate k ps)"
    by (rule map_cong) (auto simp: ID_stored)
  then show ?thesis by (simp add: map_fst_enumerate[symmetric] del: map_fst_enumerate)
qed

text \<open>The invariant of the store: the message at position \<open>n\<close> carries the ID of \<open>n\<close>.\<close>

lemma ids_addMessage:
  assumes "map ID (messages s) = map msg_id [0..<length (messages s)]"
  shows "map ID (messages (addMessage now email s)) =
         map msg_id [0..<length (messages (addMessage now email s))]"
  using assms by (simp add: messages_addMessage ID_stored)

lemma ids_apply_op:
  assumes "map ID (messages s) = map msg_id [0..<length (messages s)]"
  shows "map ID (messages (apply_op s x)) = map msg_id [0..<length (messages (apply_op s x))]"
proof (cases x)
  case (Append now email)
  then show ?thesis using ids_addMessage[OF assms] by simp
next
  case ClearAll
  then show ?thesis by (simp add: Clear_def)
qed

lemma ids_foldl:
  assumes "map ID (messages s) = map msg_id [0..<length (messages s)]"
  shows "map ID (messages (foldl apply_op s xs)) =
         map msg_id [0..<length (messages (foldl apply_op s xs))]"
  using assms
proof (induction xs arbitrary: s)
  case Nil
  then show ?case by simp
next
  case (Cons x xs)
  show ?case using Cons.IH[OF ids_apply_op[OF Cons.prems]] by simp
qed

lemma ids_run_ops:
  "map ID (messages (run_ops xs (New sp hp))) =
     map msg_id [0..<length (messages (run_ops xs (New sp hp)))]"
  unfolding run_ops_def by (rule ids_foldl) (simp add: New_def)

lemma lookup_id_None: "lookup_id ms x = None \<longleftrightarrow> x \<notin> set (map ID ms)"
  by (induction ms) auto

lemma lookup_id_nth:
  "distinct (map ID ms) \<Longrightarrow> n < length ms \<Longrightarrow> lookup_id ms (ID (ms ! n)) = Some (ms ! n)"
proof (induction ms arbitrary: n)
  case Nil
  then show ?case by simp
next
  case (Cons m ms)
  show ?case
  proof (cases n)
    case 0
    then show ?thesis by simp
  next
    case (Suc k)
    with Cons.prems have k: "k < length ms" and d: "distinct (map ID ms)" by simp_all
    from Cons.prems k have "ID (ms ! k) \<noteq> ID m" by (metis distinct.simps(2) list.simps(9) nth_mem image_eqI list.set_map)
    with Cons.IH[OF d k] Suc show ?thesis by simp
  qed
qed

lemma lookup_reachable:
  assumes ids: "map ID ms = map msg_id [0..<length ms]"
  shows "lookup_id ms (msg_id n) = (if n < length ms then Some (ms ! n) else None)"
proof (cases "n < length ms")
  case True
  have "distinct (map ID ms)"
    unfolding ids by (simp add: distinct_map inj_msg_id)
  moreover have "ID (ms ! n) = msg_id n"
    using True ids by (metis add_0 length_map nth_map nth_upt)
  ultimately show ?thesis using True lookup_id_nth[of ms n] by simp
next
  case False
  have "msg_id n \<notin> set (map msg_id [0..<length ms])"
    using False by (auto simp: msg_id_inj)
  then show ?thesis using False ids by (simp add: lookup_id_None)
qed

section \<open>Lemmas about the header scan\<close>

lemmas trim_eval = TrimSpace_def TrimLeft.simps TrimRight.simps space_width_def space_width_last_def
   asciiSpace_def space2_def space3_def

lemmas scan_eval = parseSubject_def parseSubject_loop.simps Scan_def IndexByte_def dropCR_def LF_def CR_def
  MaxScanTokenSize_def HasPrefix_def ToLower_def lower_byte_def upper_letters_def lower_letters_def

lemma takeWhile_take_all:
  assumes "\<forall>x \<in> set (take n xs). P x" and "n \<le> length xs"
  shows "n \<le> length (takeWhile P xs)"
proof -
  have "takeWhile P (take n xs @ drop n xs) = take n xs @ takeWhile P (drop n xs)"
    using assms(1) by (intro takeWhile_append2) auto
  then have "length (takeWhile P xs) = length (take n xs) + length (takeWhile P (drop n xs))"
    by simp
  then show ?thesis using assms(2) by simp
qed

lemma Scan_too_long:
  assumes "MaxScanTokenSize \<le> length input" and "LF \<notin> set (take MaxScanTokenSize input)"
  shows "Scan input = None"
proof -
  have pos: "0 < MaxScanTokenSize" by (simp add: MaxScanTokenSize_def)
  have ne: "input \<noteq> []" using assms(1) pos by auto
  have "\<forall>x \<in> set (take MaxScanTokenSize input). x \<noteq> LF" using assms(2) by auto
  then have "MaxScanTokenSize \<le> length (takeWhile (\<lambda>b. b \<noteq> LF) input)"
    using assms(1) by (rule takeWhile_take_all)
  then show ?thesis using ne assms(1)
    by (simp add: Scan_def IndexByte_def Let_def)
qed

lemma parseSubject_too_long:
  assumes "MaxScanTokenSize \<le> length input" and "LF \<notin> set (take MaxScanTokenSize input)"
  shows "parseSubject input = []"
  using Scan_too_long[OF assms] by (simp add: parseSubject_def parseSubject_loop.simps)

lemma lower_byte_cases:
  "lower_byte c = c \<or> (c \<in> set upper_letters \<and> lower_byte c \<in> set lower_letters)"
proof (cases "map_of (zip upper_letters lower_letters) c")
  case None
  then show ?thesis by (simp add: lower_byte_def)
next
  case (Some l)
  then have "(c, l) \<in> set (zip upper_letters lower_letters)" by (rule map_of_SomeD)
  then have "c \<in> set upper_letters" "l \<in> set lower_letters"
    by (auto dest: set_zip_leftD set_zip_rightD)
  with Some show ?thesis by (simp add: lower_byte_def)
qed

lemma colon_not_letter: "CHR '':'' \<notin> set upper_letters" "CHR '':'' \<notin> set lower_letters"
  by (simp_all add: upper_letters_def lower_letters_def)

lemma lower_byte_colon: "lower_byte c = CHR '':'' \<longleftrightarrow> c = CHR '':''"
  using lower_byte_cases[of c] colon_not_letter by auto

lemma ToLower_no_colon:
  "CHR '':'' \<in> set (ToLower s) \<longleftrightarrow> CHR '':'' \<in> set s"
proof (induction s)
  case Nil
  show ?case by (simp add: ToLower_def)
next
  case (Cons a s)
  have "CHR '':'' = lower_byte a \<longleftrightarrow> CHR '':'' = a"
    using lower_byte_colon[of a] by auto
  with Cons show ?case by (simp add: ToLower_def)
qed

lemma split_at_colon:
  assumes "CHR '':'' \<in> set line"
  shows "line = before_colon line @ CHR '':'' # after_colon line"
  using assms by (induction line) (auto simp: before_colon_def after_colon_def)

lemma before_colon_append:
  assumes "CHR '':'' \<notin> set pre"
  shows "before_colon (pre @ CHR '':'' # rest) = pre" "after_colon (pre @ CHR '':'' # rest) = rest"
  using assms by (induction pre) (auto simp: before_colon_def after_colon_def)

lemma subject_prefix_iff:
  "HasPrefix (ToLower line) ''subject:'' \<longleftrightarrow> is_subject_line line"
proof
  assume h: "HasPrefix (ToLower line) ''subject:''"
  have l8: "length ''subject:'' = 8" by simp
  from h[unfolded HasPrefix_def l8 ToLower_def]
  have len: "7 < length line" and tk: "map lower_byte (take 8 line) = ''subject:''"
    by (simp_all add: take_map)
  from len have line: "line = take 7 line @ line ! 7 # drop 8 line"
    using id_take_nth_drop[of 7 line] by simp
  from len have "take 8 line = take 7 line @ [line ! 7]"
    using take_Suc_conv_app_nth[of 7 line] by simp
  with tk have "map lower_byte (take 7 line) @ [lower_byte (line ! 7)] = ''subject'' @ [CHR '':'']"
    by simp
  then have "map lower_byte (take 7 line) = ''subject'' \<and> lower_byte (line ! 7) = CHR '':''"
    by (rule append1_eq_conv[THEN iffD1])
  then have pre: "ToLower (take 7 line) = ''subject''" and k: "lower_byte (line ! 7) = CHR '':''"
    by (simp_all add: ToLower_def)
  from k have k': "line ! 7 = CHR '':''" by (simp add: lower_byte_colon)
  have "CHR '':'' \<notin> set (ToLower (take 7 line))" by (simp add: pre)
  then have nc: "CHR '':'' \<notin> set (take 7 line)" by (simp add: ToLower_no_colon)
  have "before_colon (take 7 line @ CHR '':'' # drop 8 line) = take 7 line"
    using nc by (rule before_colon_append(1))
  then have bc: "before_colon line = take 7 line" using line k' by simp
  have "line ! 7 \<in> set line" using len by (rule nth_mem)
  then have "CHR '':'' \<in> set line" using k' by simp
  then show "is_subject_line line" using pre bc by (simp add: is_subject_line_def)
next
  assume h: "is_subject_line line"
  then have mem: "CHR '':'' \<in> set line" and low: "ToLower (before_colon line) = ''subject''"
    by (simp_all add: is_subject_line_def)
  have "ToLower (before_colon line @ CHR '':'' # after_colon line)
      = ToLower (before_colon line) @ lower_byte (CHR '':'') # ToLower (after_colon line)"
    by (simp add: ToLower_def)
  then have "ToLower line = ToLower (before_colon line) @ lower_byte (CHR '':'') # ToLower (after_colon line)"
    using split_at_colon[OF mem] by simp
  then have "ToLower line = ''subject:'' @ ToLower (after_colon line)"
    using low lower_byte_colon[of "CHR '':''"] by simp
  then show "HasPrefix (ToLower line) ''subject:''"
    by (simp add: HasPrefix_def)
qed

lemma subject_rest:
  assumes "is_subject_line line"
  shows "drop 8 line = after_colon line"
proof -
  from assms have mem: "CHR '':'' \<in> set line" and low: "ToLower (before_colon line) = ''subject''"
    by (simp_all add: is_subject_line_def)
  have "length (ToLower (before_colon line)) = 7" by (simp add: low)
  then have len: "length (before_colon line) = 7" by (simp add: ToLower_def)
  have "drop 8 (before_colon line @ CHR '':'' # after_colon line) = after_colon line"
    using len by simp
  then show ?thesis using split_at_colon[OF mem] by simp
qed

lemma IndexByte_less: "IndexByte input c = Some i \<Longrightarrow> i < length input"
  by (auto simp: IndexByte_def Let_def split: if_splits)

lemma loop_step:
  "parseSubject_loop input =
     (case Scan input of None \<Rightarrow> []
      | Some (line, rest) \<Rightarrow>
          if line = [] then []
          else if is_subject_line line then TrimSpace (after_colon line)
          else parseSubject_loop rest)"
  by (subst parseSubject_loop.simps)
     (auto simp: subject_prefix_iff subject_rest split: option.splits)

lemma parseSubject_loop_lines:
  "\<forall>raw \<in> set (split_raw input). length raw < MaxScanTokenSize \<Longrightarrow>
   parseSubject_loop input = header_scan (split_lines input)"
proof (induction input rule: split_raw.induct)
  case (1 input)
  show ?case
  proof (cases "input = []")
    case True
    then show ?thesis
      by (simp add: loop_step Scan_def split_lines_def split_raw.simps)
  next
    case ne: False
    show ?thesis
    proof (cases "IndexByte input LF")
      case None
      with ne have raw: "split_raw input = [input]" by (simp add: split_raw.simps)
      with "1.prems" have short: "length input < MaxScanTokenSize" by simp
      with ne None have sc: "Scan input = Some (dropCR input, [])" by (simp add: Scan_def)
      have nil: "parseSubject_loop [] = []" by (simp add: loop_step Scan_def)
      show ?thesis
        by (subst loop_step) (simp add: sc nil split_lines_def raw)
    next
      case (Some i)
      with ne have raw: "split_raw input = take i input # split_raw (drop (i + 1) input)"
        by (simp add: split_raw.simps)
      from Some have "i < length input" by (rule IndexByte_less)
      then have "length (take i input) = i" by simp
      with "1.prems" raw have short: "i < MaxScanTokenSize" by simp
      with ne Some have sc: "Scan input = Some (dropCR (take i input), drop (i + 1) input)"
        by (simp add: Scan_def)
      from "1.prems" raw
      have "\<forall>raw \<in> set (split_raw (drop (i + 1) input)). length raw < MaxScanTokenSize" by simp
      with "1.IH"[OF ne Some]
      have IH: "parseSubject_loop (drop (i + 1) input) = header_scan (split_lines (drop (i + 1) input))"
        by simp
      show ?thesis using IH
        by (subst loop_step) (simp add: sc split_lines_def raw)
    qed
  qed
qed

lemma takeWhile_upto: "c \<notin> set pre \<Longrightarrow> takeWhile (\<lambda>b. b \<noteq> c) (pre @ c # rest) = pre"
  by (induction pre) auto

lemma IndexByte_append: "c \<notin> set pre \<Longrightarrow> IndexByte (pre @ c # rest) c = Some (length pre)"
  by (simp add: IndexByte_def takeWhile_upto Let_def)

lemma split_raw_append: "LF \<notin> set pre \<Longrightarrow> split_raw (pre @ LF # rest) = pre # split_raw rest"
  by (subst split_raw.simps) (simp add: IndexByte_append)

lemma dropCR_snoc: "dropCR (xs @ [CR]) = xs"
  by (simp add: dropCR_def)

lemma long_header_too_long: "parseSubject long_header_body = []"
proof (rule parseSubject_too_long)
  show "MaxScanTokenSize \<le> length long_header_body"
    by (simp add: long_header_body_def MaxScanTokenSize_def)
  show "LF \<notin> set (take MaxScanTokenSize long_header_body)"
    by (simp add: long_header_body_def MaxScanTokenSize_def LF_def CR_def)
qed

lemma long_header_lines:
  "split_lines long_header_body = [''X-Long: '' @ replicate 65536 (CHR ''a''), ''Subject: Hello'', [], ''Body'']"
proof -
  let ?pre = "''X-Long: '' @ replicate 65536 (CHR ''a'') @ [CR]"
  let ?rest = "''Subject: Hello'' @ [CR, LF, CR, LF] @ ''Body''"
  have eq: "long_header_body = ?pre @ LF # ?rest" by (simp add: long_header_body_def)
  have "LF \<notin> set ?pre" by (simp add: LF_def CR_def)
  then have "split_raw (?pre @ LF # ?rest) = ?pre # split_raw ?rest"
    by (rule split_raw_append)
  then have "split_raw long_header_body = ?pre # split_raw ?rest"
    by (simp only: eq)
  moreover have "split_raw ?rest = [''Subject: Hello'' @ [CR], [CR], ''Body'']"
    by (simp add: split_raw.simps IndexByte_def LF_def CR_def)
  moreover have "dropCR ?pre = ''X-Long: '' @ replicate 65536 (CHR ''a'')"
    using dropCR_snoc[of "''X-Long: '' @ replicate 65536 (CHR ''a'')"] by simp
  ultimately show ?thesis
    by (simp add: split_lines_def) (simp add: dropCR_def CR_def)
qed

lemma long_header_expected: "header_scan (split_lines long_header_body) = ''Hello''"
  unfolding long_header_lines
  by (simp add: is_subject_line_def before_colon_def after_colon_def ToLower_def lower_byte_def
      upper_letters_def lower_letters_def trim_eval)

lemma long_subject_too_long: "parseSubject long_subject_body = []"
proof (rule parseSubject_too_long)
  show "MaxScanTokenSize \<le> length long_subject_body"
    by (simp add: long_subject_body_def MaxScanTokenSize_def)
  show "LF \<notin> set (take MaxScanTokenSize long_subject_body)"
    by (simp add: long_subject_body_def MaxScanTokenSize_def LF_def CR_def)
qed

lemma long_subject_lines:
  "split_lines long_subject_body = [''Subject: '' @ replicate 65536 (CHR ''a''), []]"
proof -
  let ?pre = "''Subject: '' @ replicate 65536 (CHR ''a'') @ [CR]"
  let ?rest = "[CR, LF]"
  have eq: "long_subject_body = ?pre @ LF # ?rest" by (simp add: long_subject_body_def)
  have "LF \<notin> set ?pre" by (simp add: LF_def CR_def)
  then have "split_raw (?pre @ LF # ?rest) = ?pre # split_raw ?rest"
    by (rule split_raw_append)
  then have "split_raw long_subject_body = ?pre # split_raw ?rest"
    by (simp only: eq)
  moreover have "split_raw ?rest = [[CR]]"
    by (simp add: split_raw.simps IndexByte_def LF_def CR_def)
  moreover have "dropCR ?pre = ''Subject: '' @ replicate 65536 (CHR ''a'')"
    using dropCR_snoc[of "''Subject: '' @ replicate 65536 (CHR ''a'')"] by simp
  ultimately show ?thesis
    by (simp add: split_lines_def) (simp add: dropCR_def CR_def)
qed

lemma TrimSpace_letters: "TrimSpace (CHR '' '' # replicate 65536 (CHR ''a'')) = replicate 65536 (CHR ''a'')"
proof -
  have front: "replicate 65536 (CHR ''a'') = CHR ''a'' # replicate 65535 (CHR ''a'')"
    using replicate_Suc[of 65535 "CHR ''a''"] by simp
  have rear: "replicate 65536 (CHR ''a'') = replicate 65535 (CHR ''a'') @ [CHR ''a'']"
    using replicate_append_same[of 65535 "CHR ''a''"] front by simp
  have w0: "space_width (CHR ''a'' # cs) = 0" for cs
    by (simp add: space_width_def asciiSpace_def space2_def space3_def)
  have w1: "space_width (CHR '' '' # cs) = 1" for cs
    by (simp add: space_width_def asciiSpace_def)
  have wl: "space_width_last (cs @ [CHR ''a'']) = 0" for cs
    by (simp add: space_width_last_def asciiSpace_def space2_def space3_def)
  have "TrimLeft (CHR '' '' # replicate 65536 (CHR ''a'')) = TrimLeft (replicate 65536 (CHR ''a''))"
    by (subst TrimLeft.simps) (simp add: w1)
  also have "\<dots> = replicate 65536 (CHR ''a'')"
    by (subst TrimLeft.simps, subst front, simp only: w0) simp
  finally have left: "TrimLeft (CHR '' '' # replicate 65536 (CHR ''a'')) = replicate 65536 (CHR ''a'')" .
  have "TrimRight (replicate 65536 (CHR ''a'')) = replicate 65536 (CHR ''a'')"
    by (subst TrimRight.simps, subst rear, simp only: wl) simp
  with left show ?thesis by (simp add: TrimSpace_def)
qed

lemma long_subject_expected:
  "header_scan (split_lines long_subject_body) = replicate 65536 (CHR ''a'')"
  unfolding long_subject_lines
  by (simp add: is_subject_line_def before_colon_def after_colon_def ToLower_def lower_byte_def
      upper_letters_def lower_letters_def TrimSpace_letters)

text \<open>On a body whose lines are all shorter than the scanner's limit, \<^verbatim>\<open>parseSubject\<close>
  is the header scan over the lines of the body.\<close>

lemma parseSubject_short_lines:
  "\<forall>raw \<in> set (split_raw body). length raw < MaxScanTokenSize \<Longrightarrow>
   parseSubject body = header_scan (split_lines body)"
  unfolding parseSubject_def by (rule parseSubject_loop_lines)

lemma parseSubject_examples:
  "parseSubject (''Subject: Hello'' @ [CR, LF, CR, LF] @ ''Body'') = ''Hello''"
  "parseSubject ''just text'' = []"
  "parseSubject (''SUBJECT:   spaced  '' @ [CR, LF, CR, LF]) = ''spaced''"
  "parseSubject (''Subject: one'' @ [CR, LF] @ ''Subject: two'' @ [CR, LF, CR, LF]) = ''one''"
  by (simp_all add: scan_eval trim_eval)

section \<open>Lemmas about the session and the ports\<close>

lemma Data_ok:
  "Data (body, None) now s srv =
     (None, s, addMessage now \<lparr>ID = [], From = sess_from s, Subject = parseSubject body,
                               Body = body, Time = 0, To = sess_to s\<rparr> srv)"
  by (simp add: Data_def Let_def)

text \<open>On a connection too, a failed read and a reset leave the store as it was, and a
  reset empties the session.\<close>

lemma serve_store_frame:
  "snd (snd (serve (DATA (partial, Some err) now) (c, s, srv))) = srv"
  "snd (snd (serve RSET (c, s, srv))) = srv"
  "fst (snd (serve RSET (c, s, srv))) = \<lparr>sess_from = [], sess_to = []\<rparr>"
  by (cases s; simp add: Data_def Reset_def)+

lemmas num_eval = Atoi_def Sscanf_d_def SkipSpace.simps signed_value_def in_int_range_def
  decimal_value_def digit_val_def is_digit_def digits_def space_width_def asciiSpace_def
  space2_def space3_def HasPrefix_def LF_def CR_def


text \<open>The two parsers differ on text after the digits and on leading blanks.\<close>

lemma Sscanf_d_Atoi_examples:
  "Sscanf_d ''2525'' = Some 2525" "Atoi ''2525'' = Some 2525"
  "Sscanf_d ''25x'' = Some 25" "Atoi ''25x'' = None"
  "Sscanf_d '' 25'' = Some 25" "Atoi '' 25'' = None"
  "Sscanf_d ''port'' = None" "Atoi ''port'' = None"
  by (simp_all add: num_eval)

section \<open>The claims\<close>

text \<open>
  Claim C1. The subject extraction scans the body line by line from the start; a
  zero-length line ends the header section; the first line whose portion before the
  first colon is \<^verbatim>\<open>subject\<close>, compared without regard to case, gives the label, trimmed.
  The code stops scanning at a line of 64 KiB or more: the message below has such a line
  before its subject line, and is far below the line limit of the SMTP server. The
  header scan over its lines gives \<^verbatim>\<open>Hello\<close>; \<^verbatim>\<open>parseSubject\<close> gives the empty
  string.
\<close>

theorem header_scan_stops_at_long_line:
  "length long_header_body \<le> MaxLineLength NewWithDefaults
   \<and> split_lines long_header_body =
       [''X-Long: '' @ replicate 65536 (CHR ''a''), ''Subject: Hello'', [], ''Body'']
   \<and> header_scan (split_lines long_header_body) = ''Hello''
   \<and> parseSubject long_header_body = []"
  using long_header_lines long_header_expected long_header_too_long
  by (simp add: NewWithDefaults_def New_def long_header_body_def)

text \<open>
  Claim C2. After \<open>N\<close> appends on a store that is new or was just cleared, \<^verbatim>\<open>Emails\<close>
  returns exactly \<open>N\<close> records, in the order of the appends: the record at position
  \<open>n\<close> is the \<open>n\<close>-th message appended, with the time of its append and the
  identifier \<^verbatim>\<open>msg-\<close>\<open>n\<close>, the decimal numeral of the length of the collection at the
  moment of the append.
\<close>

theorem appends_list_in_order:
  "Emails (addMessages ps (New sp hp)) = map (\<lambda>(n, p). stored n p) (enumerate 0 ps)
   \<and> Emails (addMessages ps (Clear s)) = map (\<lambda>(n, p). stored n p) (enumerate 0 ps)
   \<and> length (Emails (addMessages ps (Clear s))) = length ps
   \<and> map ID (Emails (addMessages ps (Clear s))) = map msg_id [0..<length ps]
   \<and> msg_id n = ''msg-'' @ decimal n"
proof -
  have a: "Emails (addMessages ps (New sp hp)) = map (\<lambda>(n, p). stored n p) (enumerate 0 ps)"
    by (simp add: Emails_def messages_addMessages New_def)
  have b: "Emails (addMessages ps (Clear s)) = map (\<lambda>(n, p). stored n p) (enumerate 0 ps)"
    by (simp add: Emails_def messages_addMessages Clear_def)
  have c: "map ID (map (\<lambda>(n, p). stored n p) (enumerate 0 ps)) = map msg_id [0..<length ps]"
    using map_ID_stored[of 0 ps] by simp
  show ?thesis by (simp only: a b c msg_id_def) simp
qed

text \<open>Two appends on a new store, run.\<close>

theorem appends_list_in_order_witness:
  "Emails (addMessages [(7, sample_email ''A''), (9, sample_email ''B'')] (New 1025 8025)) =
     [(sample_email ''A'')\<lparr>ID := ''msg-0'', Time := 7\<rparr>,
      (sample_email ''B'')\<lparr>ID := ''msg-1'', Time := 9\<rparr>]"
  using appends_list_in_order[of "[(7, sample_email ''A''), (9, sample_email ''B'')]" 1025 8025
      "New 1025 8025" 0]
  by (simp add: stored_def msg_id_def decimal.simps digits_def)

text \<open>
  Claim C3. Whatever the store holds, \<^verbatim>\<open>Clear\<close> followed by one append leaves a store
  of size 1 whose only record has the identifier \<^verbatim>\<open>msg-0\<close>.
\<close>

theorem clear_then_append_restarts:
  "Emails (addMessage now email (Clear s)) = [email\<lparr>ID := ''msg-0'', Time := now\<rparr>]
   \<and> length (Emails (addMessage now email (Clear s))) = 1
   \<and> map ID (Emails (addMessage now email (Clear s))) = [''msg-0'']"
  by (simp add: Emails_def addMessage_def Clear_def msg_id_0)

text \<open>A store with two messages, cleared, then one append.\<close>

theorem clear_then_append_restarts_witness:
  "Emails (addMessage 3 (sample_email ''C'')
      (Clear (addMessages [(1, sample_email ''A''), (2, sample_email ''B'')] NewWithDefaults)))
     = [(sample_email ''C'')\<lparr>ID := ''msg-0'', Time := 3\<rparr>]"
  using clear_then_append_restarts[of 3 "sample_email ''C''"
      "addMessages [(1, sample_email ''A''), (2, sample_email ''B'')] NewWithDefaults"]
  by simp

text \<open>
  Claim C4. When the read of the body fails, \<^verbatim>\<open>Data\<close> returns the error, wrapped, to
  the connection layer, and the store (and the session) are as they were: no record is
  appended. Bytes already read are dropped.
\<close>

theorem data_read_failure_aborts:
  "Data (partial, Some err) now s srv = (Some (Errorf ''failed to read email data'' err), s, srv)
   \<and> exec (DATA (partial, Some err) now) (s, srv)
       = (Some (Errorf ''failed to read email data'' err), s, srv)
   \<and> Emails (snd (snd (exec (DATA (partial, Some err) now) (s, srv)))) = Emails srv"
  by (simp add: Data_def)

text \<open>A connection reset in the middle of the data, on a store with one message.\<close>

theorem data_read_failure_aborts_witness:
  "exec (DATA (''Subject: T'', Some (IOError ''connection reset'')) 5)
        (sample_session, addMessage 1 (sample_email ''A'') NewWithDefaults)
     = (Some (Errorf ''failed to read email data'' (IOError ''connection reset'')),
        sample_session, addMessage 1 (sample_email ''A'') NewWithDefaults)"
  using data_read_failure_aborts[of "''Subject: T''" "IOError ''connection reset''" 5 sample_session
      "addMessage 1 (sample_email ''A'') NewWithDefaults"]
  by simp

text \<open>
  Claim C5. In every store reached from a new one by appends and clears, \<^verbatim>\<open>Email\<close>
  returns for the identifier of position \<open>n\<close> the record at that position when the store
  holds one, and \<^verbatim>\<open>nil\<close> otherwise; the identifiers in the store are those of its
  positions; \<^verbatim>\<open>Email\<close> returns \<^verbatim>\<open>nil\<close> exactly for the identifiers no record of the store
  carries, and for every identifier once the store is cleared.
\<close>

theorem get_by_identifier:
  "Server_Email (run_ops xs (New sp hp)) (msg_id n) =
     (if n < length (Emails (run_ops xs (New sp hp)))
      then Some (Emails (run_ops xs (New sp hp)) ! n) else None)
   \<and> map ID (Emails (run_ops xs (New sp hp))) =
       map msg_id [0..<length (Emails (run_ops xs (New sp hp)))]
   \<and> (Server_Email (run_ops xs (New sp hp)) x = None) =
       (x \<notin> set (map ID (Emails (run_ops xs (New sp hp)))))
   \<and> Server_Email (Clear (run_ops xs (New sp hp))) x = None"
proof -
  let ?s = "run_ops xs (New sp hp)"
  have ids: "map ID (messages ?s) = map msg_id [0..<length (messages ?s)]"
    by (rule ids_run_ops)
  have "lookup_id (messages ?s) (msg_id n) =
      (if n < length (messages ?s) then Some (messages ?s ! n) else None)"
    using ids by (rule lookup_reachable)
  then show ?thesis
    using ids by (simp add: Server_Email_def Emails_def lookup_id_None Clear_def)
qed

text \<open>One append, a clear, two appends: \<^verbatim>\<open>msg-1\<close> is the last message, \<^verbatim>\<open>msg-2\<close> is absent.\<close>

theorem get_by_identifier_witness:
  "Server_Email (run_ops [Append 1 (sample_email ''A''), ClearAll, Append 2 (sample_email ''B''),
        Append 3 (sample_email ''C'')] (New 1025 8025)) ''msg-1''
     = Some ((sample_email ''C'')\<lparr>ID := ''msg-1'', Time := 3\<rparr>)
   \<and> Server_Email (run_ops [Append 1 (sample_email ''A''), ClearAll, Append 2 (sample_email ''B''),
        Append 3 (sample_email ''C'')] (New 1025 8025)) ''msg-2''
     = None"
  using
    get_by_identifier[of "[Append 1 (sample_email ''A''), ClearAll, Append 2 (sample_email ''B''),
        Append 3 (sample_email ''C'')]" 1025 8025 1 "''msg-2''"]
    get_by_identifier[of "[Append 1 (sample_email ''A''), ClearAll, Append 2 (sample_email ''B''),
        Append 3 (sample_email ''C'')]" 1025 8025 2 "''msg-2''"]
  by (simp add: run_ops_def New_def Emails_def addMessage_def Clear_def msg_id_def decimal.simps
      digits_def)

text \<open>
  Claim C6, as stated: a request for \<^verbatim>\<open>/api/v1/emails/\<close> with an empty id is answered
  with status 404. The handler answers it with status 400.
\<close>

theorem get_email_empty_id_counterexample:
  "handleGetEmail encode_id NewWithDefaults ''/api/v1/emails/'' =
     Inr \<lparr>statusCode = 400, contentType = ''text/plain; charset=utf-8'',
          respBody = ''Email ID is required'' @ [LF]\<rparr>"
  by (simp add: handleGetEmail_def http_Error_def StatusBadRequest_def)

text \<open>
  Claim C6, amended. For a request to \<^verbatim>\<open>/api/v1/emails/{id}\<close>: if a record with that id
  is found and its encoding succeeds, the response is status 200 with the JSON of the
  record; if the id is empty, the response is status 400 with a plain-text message; if
  the id is not empty and no record has it, the response is status 404 with a plain-text
  message.
\<close>

theorem get_email_responses:
  "(Server_Email s i = Some email \<and> i \<noteq> [] \<and> encode email = Some js \<longrightarrow>
      handleGetEmail encode s (''/api/v1/emails/'' @ i) =
        Inr \<lparr>statusCode = 200, contentType = ''application/json'', respBody = js @ [LF]\<rparr>)
   \<and> (i = [] \<longrightarrow>
      handleGetEmail encode s (''/api/v1/emails/'' @ i) =
        Inr \<lparr>statusCode = 400, contentType = ''text/plain; charset=utf-8'',
             respBody = ''Email ID is required'' @ [LF]\<rparr>)
   \<and> (i \<noteq> [] \<and> Server_Email s i = None \<longrightarrow>
      handleGetEmail encode s (''/api/v1/emails/'' @ i) =
        Inr \<lparr>statusCode = 404, contentType = ''text/plain; charset=utf-8'',
             respBody = ''Email not found'' @ [LF]\<rparr>)"
  by (simp add: handleGetEmail_def http_Error_def StatusBadRequest_def StatusNotFound_def
      StatusOK_def)

text \<open>The three responses on a store with one message.\<close>

theorem get_email_responses_witness:
  "handleGetEmail encode_id (addMessage 1 (sample_email ''T'') NewWithDefaults) ''/api/v1/emails/msg-0''
     = Inr \<lparr>statusCode = 200, contentType = ''application/json'',
            respBody = [CHR 0x22] @ ''msg-0'' @ [CHR 0x22, LF]\<rparr>
   \<and> handleGetEmail encode_id (addMessage 1 (sample_email ''T'') NewWithDefaults) ''/api/v1/emails/''
     = Inr \<lparr>statusCode = 400, contentType = ''text/plain; charset=utf-8'',
            respBody = ''Email ID is required'' @ [LF]\<rparr>
   \<and> handleGetEmail encode_id (addMessage 1 (sample_email ''T'') NewWithDefaults) ''/api/v1/emails/msg-999''
     = Inr \<lparr>statusCode = 404, contentType = ''text/plain; charset=utf-8'',
            respBody = ''Email not found'' @ [LF]\<rparr>"
  using
    get_email_responses[of "addMessage 1 (sample_email ''T'') NewWithDefaults" "''msg-0''"
      "(sample_email ''T'')\<lparr>ID := ''msg-0'', Time := 1\<rparr>" encode_id "[CHR 0x22] @ ''msg-0'' @ [CHR 0x22]"]
    get_email_responses[of "addMessage 1 (sample_email ''T'') NewWithDefaults" "[]"
      "(sample_email ''T'')\<lparr>ID := ''msg-0'', Time := 1\<rparr>" encode_id "[]"]
    get_email_responses[of "addMessage 1 (sample_email ''T'') NewWithDefaults" "''msg-999''"
      "(sample_email ''T'')\<lparr>ID := ''msg-0'', Time := 1\<rparr>" encode_id "[]"]
  by (simp add: Server_Email_def addMessage_def NewWithDefaults_def New_def msg_id_0 encode_id_def
      sample_email_def)

text \<open>
  Claim C7. The intake supports lines of at least 16 MiB: a message whose subject line is
  that long is accepted and its subject is still extracted. The message below has a
  subject line of 64 KiB and some bytes, far below the line limit of the SMTP server. It
  is accepted and stored; the header scan over its lines gives the 65536 letters of the
  subject; \<^verbatim>\<open>parseSubject\<close> gives the empty string, which is what is stored.
\<close>

theorem long_subject_line_not_extracted:
  "length long_subject_body \<le> MaxLineLength NewWithDefaults
   \<and> header_scan (split_lines long_subject_body) = replicate 65536 (CHR ''a'')
   \<and> parseSubject long_subject_body = []
   \<and> exec (DATA (long_subject_body, None) 1) (sample_session, NewWithDefaults) =
       (None, sample_session,
        NewWithDefaults\<lparr>messages := [\<lparr>ID = ''msg-0'', From = ''a@x.com'', Subject = [],
           Body = long_subject_body, Time = 1, To = [''b@x.com'']\<rparr>]\<rparr>)"
proof -
  have 1: "length long_subject_body \<le> MaxLineLength NewWithDefaults"
    by (simp add: NewWithDefaults_def New_def long_subject_body_def)
  have 2: "exec (DATA (long_subject_body, None) 1) (sample_session, NewWithDefaults) =
       (None, sample_session,
        NewWithDefaults\<lparr>messages := [\<lparr>ID = ''msg-0'', From = ''a@x.com'', Subject = [],
           Body = long_subject_body, Time = 1, To = [''b@x.com'']\<rparr>]\<rparr>)"
    by (simp add: Data_ok long_subject_too_long addMessage_def sample_session_def
        NewWithDefaults_def New_def msg_id_0)
  show ?thesis using 1 2 long_subject_expected long_subject_too_long by simp
qed

text \<open>
  Claim C8. In any state of the session, the reset command sets the sender to the empty
  string and the recipients to the empty sequence, and the records of the store are as
  they were.
\<close>

theorem reset_clears_session_only:
  "exec RSET (s, srv) = (None, \<lparr>sess_from = [], sess_to = []\<rparr>, srv)
   \<and> sess_from (Reset s) = [] \<and> sess_to (Reset s) = []
   \<and> Emails (snd (snd (exec RSET (s, srv)))) = Emails srv"
  by (cases s) (simp add: Reset_def)

text \<open>A reset of a session with a sender and a recipient, on a store with one message.\<close>

theorem reset_clears_session_only_witness:
  "exec RSET (sample_session, addMessage 1 (sample_email ''A'') NewWithDefaults)
     = (None, \<lparr>sess_from = [], sess_to = []\<rparr>, addMessage 1 (sample_email ''A'') NewWithDefaults)"
  using reset_clears_session_only[of sample_session "addMessage 1 (sample_email ''A'') NewWithDefaults"]
  by simp

text \<open>
  Claim C9, as stated: when a second transaction completes on the same session with no
  explicit reset between the two, its record lists the recipients of the earlier
  transaction too. On a connection the second record lists its own recipient only.
\<close>

theorem second_transaction_counterexample:
  "map To (Emails (snd (snd (run_conn
      [MAIL ''a@x.com'', RCPT ''b@x.com'', DATA (''Subject: one'', None) 1,
       MAIL ''c@x.com'', RCPT ''d@x.com'', DATA (''Subject: two'', None) 2]
      (new_Conn, \<lparr>sess_from = [], sess_to = []\<rparr>, NewWithDefaults)))))
   = [[''b@x.com''], [''d@x.com'']]"
  by (simp add: new_Conn_def Conn_reset_def Mail_def Rcpt_def Reset_def Data_ok Emails_def
      addMessage_def NewWithDefaults_def New_def)

text \<open>
  Claim C9, amended. The method \<^verbatim>\<open>Data\<close> appends a record built from the session's
  sender and recipients and does not assign them itself. The connection layer calls
  \<^verbatim>\<open>Reset\<close> after every \<^verbatim>\<open>DATA\<close>: once a body transmission is completed the
  session's sender and recipients are empty, and when a second transaction completes on
  the same connection its record lists the recipients declared since the first one
  completed, and none of the earlier transaction.
\<close>

theorem data_then_reset_on_connection:
  "Data (body, None) now s srv =
     (None, s, addMessage now \<lparr>ID = [], From = sess_from s, Subject = parseSubject body,
                               Body = body, Time = 0, To = sess_to s\<rparr> srv)
   \<and> serve (DATA (body, None) now) (\<lparr>fromReceived = True, recipients = r # rs\<rparr>, s, srv) =
       (\<lparr>fromReceived = False, recipients = []\<rparr>, \<lparr>sess_from = [], sess_to = []\<rparr>,
        addMessage now \<lparr>ID = [], From = sess_from s, Subject = parseSubject body,
                         Body = body, Time = 0, To = sess_to s\<rparr> srv)
   \<and> map To (Emails (snd (snd (run_conn
         [MAIL f1, RCPT r1, DATA (body1, None) t1, MAIL f2, RCPT r2, DATA (body2, None) t2]
         (c, s, srv)))))
       = map To (Emails srv) @ [sess_to s @ [r1], [r2]]
   \<and> map From (Emails (snd (snd (run_conn
         [MAIL f1, RCPT r1, DATA (body1, None) t1, MAIL f2, RCPT r2, DATA (body2, None) t2]
         (c, s, srv)))))
       = map From (Emails srv) @ [f1, f2]
   \<and> fst (snd (run_conn
         [MAIL f1, RCPT r1, DATA (body1, None) t1, MAIL f2, RCPT r2, DATA (body2, None) t2]
         (c, s, srv)))
       = \<lparr>sess_from = [], sess_to = []\<rparr>"
proof -
  have reset: "Reset x = \<lparr>sess_from = [], sess_to = []\<rparr>" for x
    by (cases x) (simp add: Reset_def)
  have conn: "Conn_reset x = \<lparr>fromReceived = False, recipients = []\<rparr>" for x
    by (cases x) (simp add: Conn_reset_def)
  show ?thesis
    by (simp add: Data_ok reset conn Mail_def Rcpt_def Emails_def addMessage_def)
qed

text \<open>Two transactions on a new connection, and one \<^verbatim>\<open>DATA\<close> step of a connection
  whose session holds a sender and a recipient.\<close>

theorem data_then_reset_on_connection_witness:
  "map To (Emails (snd (snd (run_conn
      [MAIL ''p@x.com'', RCPT ''q@x.com'', DATA (''Subject: one'', None) 1,
       MAIL ''r@x.com'', RCPT ''s@x.com'', DATA (''Subject: two'', None) 2]
      (new_Conn, \<lparr>sess_from = [], sess_to = []\<rparr>, NewWithDefaults)))))
   = [[''q@x.com''], [''s@x.com'']]
   \<and> fst (snd (serve (DATA (''Subject: T'', None) 1)
        (\<lparr>fromReceived = True, recipients = [''b@x.com'']\<rparr>, sample_session, NewWithDefaults)))
     = \<lparr>sess_from = [], sess_to = []\<rparr>"
  using data_then_reset_on_connection[where s = "\<lparr>sess_from = [], sess_to = []\<rparr>"
      and srv = NewWithDefaults and c = new_Conn
      and ?f1.0 = "''p@x.com''" and ?r1.0 = "''q@x.com''" and ?body1.0 = "''Subject: one''"
      and ?t1.0 = 1 and ?f2.0 = "''r@x.com''" and ?r2.0 = "''s@x.com''"
      and ?body2.0 = "''Subject: two''" and ?t2.0 = 2
      and body = "[]" and now = 0 and r = "[]" and rs = "[]"]
    data_then_reset_on_connection[where s = sample_session and srv = NewWithDefaults
      and body = "''Subject: T''" and now = 1 and r = "''b@x.com''" and rs = "[]"
      and c = new_Conn and ?f1.0 = "[]" and ?r1.0 = "[]" and ?body1.0 = "[]" and ?t1.0 = 0
      and ?f2.0 = "[]" and ?r2.0 = "[]" and ?body2.0 = "[]" and ?t2.0 = 0]
  by (simp add: Emails_def NewWithDefaults_def New_def new_Conn_def Conn_reset_def Mail_def
      Rcpt_def Reset_def Data_ok addMessage_def sample_session_def)



end
